theory Spec2Isabelle
  imports Complex_Main "HOL-Library.Log_Nat"
begin

section \<open>JavaScript numbers, text and values\<close>

subsection \<open>Numbers as text\<close>

text \<open>
  JavaScript turns a number into text when it is concatenated with a string. The numbers
  rendered here are non-negative integers below \<open>10^21\<close>, which JavaScript prints as
  plain decimal digits.
\<close>

definition digit_char :: "nat \<Rightarrow> char" where
  "digit_char d = ''0123456789'' ! (d mod 10)"

function number_to_string :: "nat \<Rightarrow> string" where
  "number_to_string n =
     (if n < 10 then [digit_char n]
      else number_to_string (n div 10) @ [digit_char (n mod 10)])"
  by pat_completeness auto
termination
  by (relation "measure id") auto

declare number_to_string.simps [simp del]

definition int_to_string :: "int \<Rightarrow> string" where
  "int_to_string i =
     (if i < 0 then ''-'' @ number_to_string (nat (- i)) else number_to_string (nat i))"

subsection \<open>JavaScript values\<close>

text \<open>
  The values an exception can carry as its response. Numbers are integers; an object is
  its list of properties.
\<close>

datatype jsval =
    JUndefined
  | JNull
  | JBool bool
  | JNum int
  | JStr string
  | JArr "jsval list"
  | JObj "(string \<times> jsval) list"

fun js_join :: "string \<Rightarrow> string list \<Rightarrow> string" where
  "js_join sep [] = []"
| "js_join sep [x] = x"
| "js_join sep (x # y # ys) = x @ sep @ js_join sep (y # ys)"

text \<open>
  \<open>String(v)\<close>. An array prints its elements joined by a comma, where \<open>null\<close> and
  \<open>undefined\<close> elements print as the empty string.
\<close>

fun js_to_string :: "jsval \<Rightarrow> string" where
  "js_to_string JUndefined = ''undefined''"
| "js_to_string JNull = ''null''"
| "js_to_string (JBool b) = (if b then ''true'' else ''false'')"
| "js_to_string (JNum n) = int_to_string n"
| "js_to_string (JStr s) = s"
| "js_to_string (JArr xs) =
     js_join '','' (map (\<lambda>x. if x = JNull \<or> x = JUndefined then [] else js_to_string x) xs)"
| "js_to_string (JObj props) = ''[object Object]''"

text \<open>\<open>xs.join(sep)\<close> on an array of values.\<close>

definition array_join :: "string \<Rightarrow> jsval list \<Rightarrow> string" where
  "array_join sep xs =
     js_join sep (map (\<lambda>x. if x = JNull \<or> x = JUndefined then [] else js_to_string x) xs)"

section \<open>Body size guard: \<open>BodySizeLimitMiddleware\<close>\<close>

subsection \<open>\<open>formatBytes\<close>\<close>

text \<open>
  \<^verbatim>\<open>
  private formatBytes(bytes: number): string {
    const sizes = ['Bytes', 'KB', 'MB', 'GB'];
    if (bytes === 0) return '0 Bytes';
    const i = Math.floor(Math.log(bytes) / Math.log(1024));
    return Math.round(bytes / Math.pow(1024, i)) + ' ' + sizes[i];
  }
  \<close>
  Byte counts are natural numbers. \<open>Math.log\<close>, the division and \<open>Math.floor\<close> are taken
  on exact reals: \<open>unit_index\<close> is the integer part of the base-1024 logarithm, computed
  by \<open>floorlog\<close> (lemma \<open>unit_index_floor_log\<close> relates it to \<open>ln\<close>). The code takes
  the quotient of the two logarithms in double precision. Below \<open>1024^4\<close>, the range of
  the four named units, this gives the same index as the exact logarithm. Just below
  \<open>1024^5\<close> (from \<open>1024^5 - 3\<close>) the rounded quotient reaches 5 where the exact index
  is still 4, so for such byte counts the index of the code can be one more than
  \<open>unit_index\<close>, and the number printed can differ; both indices are at least 4 and
  outside the array. \<open>Math.round\<close> rounds a half upwards; \<open>round_div a b\<close> is
  \<open>Math.round(a / b)\<close> on exact reals (lemma \<open>round_div_floor\<close>). Reading an array
  beyond its end gives \<open>undefined\<close>, which string concatenation prints as the text
  \<open>undefined\<close>; \<open>sizes_at\<close> is this lookup, for any index.
\<close>

definition sizes :: "string list" where
  "sizes = [''Bytes'', ''KB'', ''MB'', ''GB'']"

definition sizes_at :: "nat \<Rightarrow> string" where
  "sizes_at i = (if i < length sizes then sizes ! i else ''undefined'')"

definition unit_index :: "nat \<Rightarrow> nat" where
  "unit_index bytes = floorlog 1024 bytes - 1"

definition round_div :: "nat \<Rightarrow> nat \<Rightarrow> nat" where
  "round_div a b = (2 * a + b) div (2 * b)"

definition formatBytes :: "nat \<Rightarrow> string" where
  "formatBytes bytes =
     (if bytes = 0 then ''0 Bytes''
      else let i = unit_index bytes
           in number_to_string (round_div bytes (1024 ^ i)) @ '' '' @ sizes_at i)"

subsection \<open>The request stream and the middleware\<close>

text \<open>
  The request is an event emitter. The middleware reads only \<open>chunk.length\<close> of a chunk,
  so a \<open>data\<close> event carries a length. \<open>'e\<close> is the type of transport error objects.
\<close>

datatype 'e event = Data nat | End | Error 'e

text \<open>
  The framework's \<open>HttpException\<close>: what \<open>getStatus()\<close> and \<open>getResponse()\<close> return.
  \<open>new PayloadTooLargeException(msg)\<close> is the framework's exception of status 413 whose
  response is the object \<open>{message: msg, error: 'Payload Too Large', statusCode: 413}\<close>.
\<close>

datatype http_exception = HttpException (getStatus: nat) (getResponse: jsval)

definition PayloadTooLargeException :: "string \<Rightarrow> http_exception" where
  "PayloadTooLargeException msg =
     HttpException 413
       (JObj [(''message'', JStr msg), (''error'', JStr ''Payload Too Large''),
              (''statusCode'', JNum 413)])"

text \<open>
  One request as the middleware sees it: the fields \<open>method\<close> and \<open>url\<close> of the request
  object, the closure variable \<open>receivedBytes\<close>, whether \<open>req.pause()\<close> has been
  called, the event names that have a listener, and the calls of \<open>next\<close> so far
  (\<open>None\<close> for \<open>next()\<close>, \<open>Some e\<close> for \<open>next(e)\<close>).
\<close>

record 'e request =
  "method" :: string
  url :: string
  receivedBytes :: nat
  paused :: bool
  listeners :: "string list"
  nextCalls :: "'e option list"

definition new_request :: "string \<Rightarrow> string \<Rightarrow> 'e request" where
  "new_request m u =
     \<lparr>method = m, url = u, receivedBytes = 0, paused = False, listeners = [],
      nextCalls = []\<rparr>"

definition defaultLimit :: nat where
  "defaultLimit = 10 * 1024 * 1024"

text \<open>\<^verbatim>\<open>const limit = this.maxSize || this.defaultLimit;\<close>: an absent or zero \<open>maxSize\<close>
  is falsy and gives the default.\<close>

definition limit_of :: "nat option \<Rightarrow> nat" where
  "limit_of maxSize =
     (case maxSize of None \<Rightarrow> defaultLimit
      | Some m \<Rightarrow> if m = 0 then defaultLimit else m)"

definition call_next :: "'e option \<Rightarrow> 'e request \<Rightarrow> 'e request" where
  "call_next arg req = req\<lparr>nextCalls := nextCalls req @ [arg]\<rparr>"

text \<open>
  \<^verbatim>\<open>
  req.on('data', (chunk: Buffer) => {
    receivedBytes += chunk.length;
    if (receivedBytes > limit) {
      req.pause();
      throw new PayloadTooLargeException(
        `Request body too large. Maximum size is ${this.formatBytes(limit)}`);
    }
  });
  req.on('end', () => { next(); });
  req.on('error', (error) => { next(error); });
  \<close>
  A listener returns the new state and the exception it throws, if any.
\<close>

definition on_data :: "nat \<Rightarrow> nat \<Rightarrow> 'e request \<Rightarrow> 'e request \<times> http_exception option" where
  "on_data limit len req =
     (let req1 = req\<lparr>receivedBytes := receivedBytes req + len\<rparr>
      in if receivedBytes req1 > limit
         then (req1\<lparr>paused := True\<rparr>,
               Some (PayloadTooLargeException
                 (''Request body too large. Maximum size is '' @ formatBytes limit)))
         else (req1, None))"

definition on_end :: "'e request \<Rightarrow> 'e request \<times> http_exception option" where
  "on_end req = (call_next None req, None)"

definition on_error :: "'e \<Rightarrow> 'e request \<Rightarrow> 'e request \<times> http_exception option" where
  "on_error error req = (call_next (Some error) req, None)"

text \<open>
  \<^verbatim>\<open>
  use(req: Request, res: Response, next: NextFunction) {
    const limit = this.maxSize || this.defaultLimit;
    let receivedBytes = 0;
    req.on('data', ...); req.on('end', ...); req.on('error', ...);
    // If no data event (e.g., GET request), proceed immediately
    if (req.method === 'GET' || req.method === 'HEAD' || req.method === 'DELETE') {
      next();
    }
  }
  \<close>
\<close>

definition use :: "'e request \<Rightarrow> 'e request" where
  "use req =
     (let req1 = req\<lparr>receivedBytes := 0,
                     listeners := listeners req @ [''data'', ''end'', ''error'']\<rparr>
      in if method req = ''GET'' \<or> method req = ''HEAD'' \<or> method req = ''DELETE''
         then call_next None req1 else req1)"

text \<open>
  \<open>emit\<close> delivers one event of the stream to the listener registered for it.
  \<open>maxSize\<close> is the constructor argument of the middleware whose listeners are
  attached. Before \<open>use\<close> has run, the request has no listener of the middleware and an
  event does not reach it.
\<close>

fun emit :: "nat option \<Rightarrow> 'e event \<Rightarrow> 'e request \<Rightarrow> 'e request \<times> http_exception option" where
  "emit maxSize (Data len) req =
     (if ''data'' \<in> set (listeners req) then on_data (limit_of maxSize) len req
      else (req, None))"
| "emit maxSize End req =
     (if ''end'' \<in> set (listeners req) then on_end req else (req, None))"
| "emit maxSize (Error error) req =
     (if ''error'' \<in> set (listeners req) then on_error error req else (req, None))"

text \<open>
  The stream emits its events in wire order. An exception thrown by a listener leaves
  \<open>emit\<close> and ends the run: the events after it are not delivered (the listener has
  paused the stream before it throws).
\<close>

fun emit_all :: "nat option \<Rightarrow> 'e event list \<Rightarrow> 'e request \<Rightarrow> 'e request \<times> http_exception option" where
  "emit_all maxSize [] req = (req, None)"
| "emit_all maxSize (ev # evs) req =
     (case emit maxSize ev req of
        (req', Some exn) \<Rightarrow> (req', Some exn)
      | (req', None) \<Rightarrow> emit_all maxSize evs req')"

text \<open>A whole request: \<open>use\<close> on the request, then the events of its stream.\<close>

definition handle :: "nat option \<Rightarrow> 'e request \<Rightarrow> 'e event list \<Rightarrow> 'e request \<times> http_exception option" where
  "handle maxSize req evs = emit_all maxSize evs (use req)"

section \<open>Error translation: \<open>AllExceptionsFilter\<close>\<close>

text \<open>
  What reaches the filter is any thrown value: an \<open>HttpException\<close>, another \<open>Error\<close>
  (its message and stack), or a value that is no \<open>Error\<close> at all. An \<open>HttpException\<close>
  is an \<open>Error\<close> and has a stack as well.
\<close>

datatype thrown =
    ThrownHttp http_exception string
  | ThrownError string string
  | ThrownValue jsval

definition INTERNAL_SERVER_ERROR :: nat where
  "INTERNAL_SERVER_ERROR = 500"

text \<open>What the filter sends: \<open>response.status(status).json(errorResponse)\<close>.\<close>

record response =
  status_sent :: nat
  json_sent :: "(string \<times> jsval) list"

text \<open>
  \<^verbatim>\<open>
  catch(exception: unknown, host: ArgumentsHost) {
    const status = exception instanceof HttpException
        ? exception.getStatus() : HttpStatus.INTERNAL_SERVER_ERROR;
    const exceptionResponse = exception instanceof HttpException
        ? exception.getResponse() : 'Internal server error';
    let message: string;
    if (typeof exceptionResponse === 'string') {
      message = exceptionResponse;
    } else if (typeof exceptionResponse === 'object' && exceptionResponse !== null &&
               'message' in exceptionResponse) {
      const msg = (exceptionResponse as Record<string, unknown>).message;
      message = Array.isArray(msg) ? msg.join(', ') : String(msg);
    } else {
      message = 'Internal server error';
    }
    const errorResponse = {
      statusCode: status, timestamp: new Date().toISOString(),
      path: request.url, method: request.method, message,
      ...(typeof exceptionResponse === 'object' && exceptionResponse !== null &&
          'error' in exceptionResponse && { error: exceptionResponse.error }),
    };
    this.logger.error(`${request.method} ${request.url}`,
      exception instanceof Error ? exception.stack : 'Unknown error');
    response.status(status).json(errorResponse);
  }
  \<close>
  \<open>now\<close> is the text of \<open>new Date().toISOString()\<close>. The result is the response sent
  and the two arguments of the logger call.
\<close>

definition exception_status :: "thrown \<Rightarrow> nat" where
  "exception_status exception =
     (case exception of ThrownHttp h stk \<Rightarrow> getStatus h | _ \<Rightarrow> INTERNAL_SERVER_ERROR)"

definition exception_response :: "thrown \<Rightarrow> jsval" where
  "exception_response exception =
     (case exception of ThrownHttp h stk \<Rightarrow> getResponse h
      | _ \<Rightarrow> JStr ''Internal server error'')"

definition extract_message :: "jsval \<Rightarrow> string" where
  "extract_message exceptionResponse =
     (case exceptionResponse of
        JStr s \<Rightarrow> s
      | JObj props \<Rightarrow>
          (case map_of props ''message'' of
             Some msg \<Rightarrow> (case msg of JArr xs \<Rightarrow> array_join '', '' xs | _ \<Rightarrow> js_to_string msg)
           | None \<Rightarrow> ''Internal server error'')
      | _ \<Rightarrow> ''Internal server error'')"

definition error_spread :: "jsval \<Rightarrow> (string \<times> jsval) list" where
  "error_spread exceptionResponse =
     (case exceptionResponse of
        JObj props \<Rightarrow> (case map_of props ''error'' of Some e \<Rightarrow> [(''error'', e)] | None \<Rightarrow> [])
      | _ \<Rightarrow> [])"

definition logged_stack :: "thrown \<Rightarrow> string" where
  "logged_stack exception =
     (case exception of ThrownHttp h stk \<Rightarrow> stk | ThrownError msg stk \<Rightarrow> stk
      | ThrownValue v \<Rightarrow> ''Unknown error'')"

definition catch :: "thrown \<Rightarrow> string \<Rightarrow> 'e request \<Rightarrow> response \<times> (string \<times> string)" where
  "catch exception now request =
     (let status = exception_status exception;
          exceptionResponse = exception_response exception;
          message = extract_message exceptionResponse;
          errorResponse =
            [(''statusCode'', JNum (int status)), (''timestamp'', JStr now),
             (''path'', JStr (url request)), (''method'', JStr (method request)),
             (''message'', JStr message)] @ error_spread exceptionResponse
      in (\<lparr>status_sent = status, json_sent = errorResponse\<rparr>,
          (method request @ '' '' @ url request, logged_stack exception)))"

subsection \<open>The admission pipeline\<close>

text \<open>
  Modelled from the spec: the dispatch of a request through the guards to the business
  handler is done by the framework, whose code is not among the repository's sources.
  Following section 4.3 of the specification, the guards run before the handler; the
  first rejection short-circuits the pipeline, the handler is not invoked, and the
  exception goes to the filter. A guard either admits (\<open>None\<close>) or rejects with what it
  throws.
\<close>

fun run_guards :: "('e request \<Rightarrow> thrown option) list \<Rightarrow> 'e request \<Rightarrow> thrown option" where
  "run_guards [] req = None"
| "run_guards (g # gs) req =
     (case g req of Some exn \<Rightarrow> Some exn | None \<Rightarrow> run_guards gs req)"

text \<open>
  Modelled from the spec: the pipeline of section 4.3, with the guards, the business
  handler and the clock as parameters. The second component of the result counts the
  invocations of the handler.
\<close>

definition pipeline ::
  "('e request \<Rightarrow> thrown option) list \<Rightarrow> ('e request \<Rightarrow> thrown + response) \<Rightarrow>
   string \<Rightarrow> 'e request \<Rightarrow> response \<times> nat" where
  "pipeline guards handler now req =
     (case run_guards guards req of
        Some exn \<Rightarrow> (fst (catch exn now req), 0)
      | None \<Rightarrow>
          (case handler req of
             Inl exn \<Rightarrow> (fst (catch exn now req), 1)
           | Inr resp \<Rightarrow> (resp, 1)))"

section \<open>Rate limiter\<close>

text \<open>
  Modelled from the spec: the rate limiter is \<open>ThrottlerGuard\<close> of the package
  \<open>@nestjs/throttler\<close> with its in-memory storage, whose code is not among the
  repository's sources; the repository holds only its wiring in \<open>AppModule\<close> (\<open>ttl\<close>
  and \<open>limit\<close> read from \<open>THROTTLE_TTL\<close> and \<open>THROTTLE_LIMIT\<close>) and its tests. The
  data model of section 3 of the specification: a window counter holds a count and the
  start of its window; the counters are a map from client identity to window counter;
  a decision admits or rejects with the seconds to wait. Times are in milliseconds.
\<close>

record window_counter =
  count :: nat
  windowStart :: int

datatype decision = Admit | RejectTooManyRequests int

text \<open>
  Modelled from the spec: \<open>ceil(x / 1000)\<close> of the retry formula, on integers (lemma
  \<open>ceil_div_1000_ceiling\<close>).
\<close>

definition ceil_div_1000 :: "int \<Rightarrow> int" where
  "ceil_div_1000 x = - ((- x) div 1000)"

text \<open>
  Modelled from the spec: one request through the rate limiter, section 4.2 of the
  specification. Look up or create the identity's window counter (created with
  \<open>count = 0\<close> and \<open>windowStart = now\<close>); if \<open>now - windowStart >= ttl\<close>, reset
  \<open>count = 0\<close>, \<open>windowStart = now\<close>; increment \<open>count\<close>; if \<open>count > limit\<close>, reject
  with \<open>retryAfterSeconds = ceil((windowStart + ttl - now) / 1000)\<close>, otherwise admit.
\<close>

definition throttle ::
  "int \<Rightarrow> nat \<Rightarrow> 'id \<Rightarrow> int \<Rightarrow> ('id \<rightharpoonup> window_counter) \<Rightarrow>
   decision \<times> ('id \<rightharpoonup> window_counter)" where
  "throttle ttl limit ident now counters =
     (let c0 = (case counters ident of
                  None \<Rightarrow> \<lparr>count = 0, windowStart = now\<rparr>
                | Some c \<Rightarrow> c);
          c1 = (if now - windowStart c0 \<ge> ttl then \<lparr>count = 0, windowStart = now\<rparr> else c0);
          c2 = c1\<lparr>count := count c1 + 1\<rparr>;
          counters' = counters(ident \<mapsto> c2)
      in if count c2 > limit
         then (RejectTooManyRequests (ceil_div_1000 (windowStart c2 + ttl - now)), counters')
         else (Admit, counters'))"

text \<open>
  Modelled from the spec: a sequence of requests through the rate limiter, each an
  identity and its arrival time, in arrival order. The result lists each request's
  identity with its decision.
\<close>

fun throttle_all ::
  "int \<Rightarrow> nat \<Rightarrow> ('id \<times> int) list \<Rightarrow> ('id \<rightharpoonup> window_counter) \<Rightarrow>
   ('id \<times> decision) list \<times> ('id \<rightharpoonup> window_counter)" where
  "throttle_all ttl limit [] counters = ([], counters)"
| "throttle_all ttl limit ((ident, now) # reqs) counters =
     (case throttle ttl limit ident now counters of
        (d, counters') \<Rightarrow>
          (case throttle_all ttl limit reqs counters' of
             (ds, counters'') \<Rightarrow> ((ident, d) # ds, counters'')))"

text \<open>The decisions taken for one identity, in order.\<close>

definition decisions_for :: "'id \<Rightarrow> ('id \<times> decision) list \<Rightarrow> decision list" where
  "decisions_for ident ds = map snd (filter (\<lambda>p. fst p = ident) ds)"

section \<open>Properties of \<open>formatBytes\<close>\<close>

lemma unit_index_floor_log:
  "0 < bytes \<Longrightarrow> int (unit_index bytes) = \<lfloor>ln (real bytes) / ln 1024\<rfloor>"
  by (simp add: unit_index_def floorlog_def log_def)

lemma unit_index_nat_floor_log:
  "0 < bytes \<Longrightarrow> nat \<lfloor>log 1024 (real bytes)\<rfloor> = unit_index bytes"
  using unit_index_floor_log [of bytes] by (simp add: log_def)

lemma round_div_floor:
  "0 < b \<Longrightarrow> int (round_div a b) = \<lfloor>real a / real b + 1 / 2\<rfloor>"
proof -
  assume b: "0 < b"
  have "real a / real b + 1 / 2 = real (2 * a + b) / real (2 * b)"
    using b by (simp add: field_simps)
  then show ?thesis
    unfolding round_div_def by (simp only: floor_divide_of_nat_eq)
qed

lemma round_div_nat_floor:
  "0 < b \<Longrightarrow> nat \<lfloor>real a / real b + 1 / 2\<rfloor> = round_div a b"
  using round_div_floor [of b a] by simp

lemma unit_index_bounds:
  assumes "0 < bytes"
  shows "1024 ^ unit_index bytes \<le> bytes" and "bytes < 1024 ^ Suc (unit_index bytes)"
proof -
  have pos: "0 < floorlog 1024 bytes"
    using assms by (simp add: floorlog_def)
  have b: "1024 ^ (floorlog 1024 bytes - 1) \<le> bytes \<and> bytes < 1024 ^ floorlog 1024 bytes"
    using floorlog_bounds [of bytes 1024] assms by simp
  show "1024 ^ unit_index bytes \<le> bytes"
    using b by (simp add: unit_index_def)
  have "Suc (unit_index bytes) = floorlog 1024 bytes"
    using pos by (simp add: unit_index_def)
  then show "bytes < 1024 ^ Suc (unit_index bytes)"
    using b by simp
qed

lemma unit_index_ge_iff:
  assumes "0 < bytes"
  shows "i \<le> unit_index bytes \<longleftrightarrow> 1024 ^ i \<le> bytes"
proof
  assume "i \<le> unit_index bytes"
  then have "(1024::nat) ^ i \<le> 1024 ^ unit_index bytes"
    by (simp add: power_increasing)
  then show "1024 ^ i \<le> bytes"
    using unit_index_bounds(1) [OF assms] by (rule le_trans)
next
  assume "1024 ^ i \<le> bytes"
  then have "(1024::nat) ^ i < 1024 ^ Suc (unit_index bytes)"
    using unit_index_bounds(2) [OF assms] by simp
  then have "i < Suc (unit_index bytes)"
    using power_less_imp_less_exp [of "1024::nat" i "Suc (unit_index bytes)"] by simp
  then show "i \<le> unit_index bytes" by simp
qed

lemma unit_index_eqI:
  assumes lo: "1024 ^ i \<le> bytes" and hi: "bytes < 1024 ^ Suc i"
  shows "unit_index bytes = i"
proof -
  have pos: "0 < bytes"
    using lo by (cases "bytes = 0") auto
  have "i \<le> unit_index bytes"
    using lo by (simp add: unit_index_ge_iff [OF pos])
  moreover have "\<not> Suc i \<le> unit_index bytes"
    using hi by (simp add: unit_index_ge_iff [OF pos])
  ultimately show ?thesis by simp
qed

lemma number_to_string_digit: "n < 10 \<Longrightarrow> number_to_string n = [digit_char n]"
  by (subst number_to_string.simps) simp

lemma number_to_string_step:
  "10 \<le> n \<Longrightarrow> number_to_string n = number_to_string (n div 10) @ [digit_char (n mod 10)]"
  by (subst number_to_string.simps) simp

lemma formatBytes_0: "formatBytes 0 = ''0 Bytes''"
  by (simp add: formatBytes_def)

lemma formatBytes_1024: "formatBytes 1024 = ''1 KB''"
proof -
  have "unit_index 1024 = 1"
    by (rule unit_index_eqI) simp_all
  then show ?thesis
    by (simp add: formatBytes_def round_div_def number_to_string_digit digit_char_def
        sizes_at_def sizes_def)
qed

lemma formatBytes_10MB: "formatBytes (10 * 1024 * 1024) = ''10 MB''"
proof -
  have "unit_index (10 * 1024 * 1024) = 2"
    by (rule unit_index_eqI) simp_all
  then show ?thesis
    by (simp add: formatBytes_def round_div_def number_to_string_step
        number_to_string_digit digit_char_def sizes_at_def sizes_def)
qed

lemma formatBytes_default: "formatBytes defaultLimit = ''10 MB''"
  using formatBytes_10MB by (simp add: defaultLimit_def)

lemma sizes_at_undefined_iff: "(sizes_at i = ''undefined'') = (4 \<le> i)"
proof (cases "i < 4")
  case True
  then have "i = 0 \<or> i = 1 \<or> i = 2 \<or> i = 3" by arith
  then show ?thesis
    by (auto simp: sizes_at_def sizes_def)
next
  case False
  then show ?thesis by (simp add: sizes_at_def sizes_def)
qed

text \<open>
  C6, as amended. \<open>formatBytes\<close> maps 0 to \<open>0 Bytes\<close>, 1024 to \<open>1 KB\<close> and 10 * 1024 * 1024 to
  \<open>10 MB\<close>. For a positive byte count below \<open>1024^4\<close>, with \<open>i\<close> the integer part of
  the base-1024 logarithm of the count, \<open>i\<close> indexes one of the four units, this unit
  is the largest one not above the count (\<open>1024^i \<le> bytes < 1024^(i+1)\<close>), and the
  text is \<open>round(bytes / 1024^i)\<close>, a space and the unit's name.
\<close>

theorem formatBytes_largest_unit:
  "formatBytes 0 = ''0 Bytes'' \<and> formatBytes 1024 = ''1 KB'' \<and>
   formatBytes (10 * 1024 * 1024) = ''10 MB'' \<and>
   (0 < bytes \<and> bytes < 1024 ^ 4 \<longrightarrow>
      (let i = nat \<lfloor>log 1024 (real bytes)\<rfloor>
       in i < length sizes \<and> 1024 ^ i \<le> bytes \<and> bytes < 1024 ^ Suc i \<and>
          formatBytes bytes =
            number_to_string (nat \<lfloor>real bytes / 1024 ^ i + 1 / 2\<rfloor>) @ '' '' @ sizes ! i))"
proof -
  have gen: "let i = nat \<lfloor>log 1024 (real bytes)\<rfloor>
       in i < length sizes \<and> 1024 ^ i \<le> bytes \<and> bytes < 1024 ^ Suc i \<and>
          formatBytes bytes =
            number_to_string (nat \<lfloor>real bytes / 1024 ^ i + 1 / 2\<rfloor>) @ '' '' @ sizes ! i"
    if pos: "0 < bytes" and small: "bytes < 1024 ^ 4"
  proof -
    let ?i = "unit_index bytes"
    have i: "nat \<lfloor>log 1024 (real bytes)\<rfloor> = ?i"
      using pos by (rule unit_index_nat_floor_log)
    have "\<not> 4 \<le> ?i"
      using small by (simp add: unit_index_ge_iff [OF pos])
    then have len: "?i < length sizes"
      by (simp add: sizes_def)
    have r: "nat \<lfloor>real bytes / 1024 ^ ?i + 1 / 2\<rfloor> = round_div bytes (1024 ^ ?i)"
      using round_div_nat_floor [of "1024 ^ ?i" bytes] by simp
    have f: "formatBytes bytes =
        number_to_string (round_div bytes (1024 ^ ?i)) @ '' '' @ sizes ! ?i"
      using pos len by (simp add: formatBytes_def sizes_at_def Let_def)
    show ?thesis
      unfolding Let_def i r
      using len unit_index_bounds [OF pos] f by simp
  qed
  show ?thesis
    using formatBytes_0 formatBytes_1024 formatBytes_10MB gen by blast
qed

theorem formatBytes_largest_unit_witness:
  "(0::nat) < 1536 \<and> (1536::nat) < 1024 ^ 4 \<and> formatBytes 1536 = ''2 KB''"
proof -
  have u: "unit_index 1536 = 1"
    by (rule unit_index_eqI) simp_all
  have i: "nat \<lfloor>log 1024 (real 1536)\<rfloor> = 1"
    using unit_index_nat_floor_log [of 1536] u by simp
  have "let i = nat \<lfloor>log 1024 (real 1536)\<rfloor>
       in formatBytes 1536 =
            number_to_string (nat \<lfloor>real 1536 / 1024 ^ i + 1 / 2\<rfloor>) @ '' '' @ sizes ! i"
    using formatBytes_largest_unit [of 1536] by (simp add: Let_def)
  then have "formatBytes 1536 =
      number_to_string (nat \<lfloor>real 1536 / 1024 ^ 1 + 1 / 2\<rfloor>) @ '' '' @ sizes ! 1"
    unfolding Let_def i .
  moreover have "nat \<lfloor>real 1536 / 1024 ^ 1 + 1 / 2\<rfloor> = 2"
    by simp
  ultimately show ?thesis
    by (simp add: number_to_string_digit digit_char_def sizes_def)
qed

text \<open>
  C6 as stated fails from \<open>1024^4\<close> bytes on: there the text carries none of the four
  units. At exactly \<open>1024^4\<close> bytes \<open>formatBytes\<close> returns \<open>1 undefined\<close>.
\<close>

theorem formatBytes_unnamed_unit_counterexample:
  "(1099511627776::nat) = 1024 ^ 4 \<and> formatBytes 1099511627776 = ''1 undefined'' \<and>
   ''undefined'' \<notin> set sizes"
proof -
  have u: "unit_index 1099511627776 = 4"
    by (rule unit_index_eqI) simp_all
  show ?thesis
    by (simp add: formatBytes_def u round_div_def number_to_string_digit digit_char_def
        sizes_at_def sizes_def)
qed

text \<open>
  C10. The unit index of \<open>formatBytes\<close> is inside the four-element array \<open>sizes\<close> exactly
  for byte counts below \<open>1024^4\<close>. An index is inside the array exactly when it is below
  4, and the lookup yields \<open>undefined\<close> exactly for the indices from 4 on. For a byte
  count of \<open>1024^4\<close> or more the index is at least 4, the lookup yields \<open>undefined\<close>,
  and the text returned is a number followed by \<open>undefined\<close> instead of a unit name.
\<close>

theorem formatBytes_unit_out_of_range:
  "(unit_index bytes < length sizes) = (bytes < 1024 ^ 4) \<and>
   (i < length sizes) = (i < 4) \<and>
   (sizes_at i = ''undefined'') = (4 \<le> i) \<and>
   (1024 ^ 4 \<le> bytes \<longrightarrow>
      4 \<le> unit_index bytes \<and> sizes_at (unit_index bytes) = ''undefined'' \<and>
      (\<exists>n. formatBytes bytes = number_to_string n @ '' undefined''))"
proof -
  have len: "length sizes = 4"
    by (simp add: sizes_def)
  have iff: "(4 \<le> unit_index bytes) = (1024 ^ 4 \<le> bytes)"
  proof (cases "bytes = 0")
    case True
    then show ?thesis by (simp add: unit_index_def compute_floorlog)
  next
    case False
    then show ?thesis using unit_index_ge_iff [of bytes 4] by simp
  qed
  have range: "(unit_index bytes < length sizes) = (bytes < 1024 ^ 4)"
    using iff len by auto
  have large: "4 \<le> unit_index bytes \<and> sizes_at (unit_index bytes) = ''undefined'' \<and>
      (\<exists>n. formatBytes bytes = number_to_string n @ '' undefined'')"
    if big: "1024 ^ 4 \<le> bytes"
  proof -
    have i: "4 \<le> unit_index bytes"
      using big iff by simp
    then have u: "sizes_at (unit_index bytes) = ''undefined''"
      by (simp add: sizes_at_undefined_iff)
    have "bytes \<noteq> 0"
      using big by auto
    then have "formatBytes bytes =
        number_to_string (round_div bytes (1024 ^ unit_index bytes)) @ '' undefined''"
      using u by (simp add: formatBytes_def Let_def)
    then show ?thesis
      using i u by blast
  qed
  show ?thesis
    using range len sizes_at_undefined_iff [of i] large by simp
qed

theorem formatBytes_unit_out_of_range_witness:
  "(1024::nat) ^ 4 \<le> 5497558138880 \<and> 4 \<le> unit_index 5497558138880 \<and>
   sizes_at (unit_index 5497558138880) = ''undefined'' \<and>
   formatBytes 5497558138880 = ''5 undefined''"
proof -
  have big: "(1024::nat) ^ 4 \<le> 5497558138880"
    by simp
  have idx: "4 \<le> unit_index 5497558138880 \<and>
      sizes_at (unit_index 5497558138880) = ''undefined''"
    using formatBytes_unit_out_of_range [of 5497558138880 0] big by blast
  have u: "unit_index 5497558138880 = 4"
    by (rule unit_index_eqI) simp_all
  have "formatBytes 5497558138880 = ''5 undefined''"
    by (simp add: formatBytes_def u round_div_def number_to_string_digit digit_char_def
        sizes_at_def sizes_def)
  then show ?thesis
    using big idx by simp
qed

section \<open>Properties of the body size guard\<close>

lemma listeners_use [simp]:
  "listeners (use req) = listeners req @ [''data'', ''end'', ''error'']"
  by (simp add: use_def call_next_def Let_def)

lemma receivedBytes_use [simp]: "receivedBytes (use req) = 0"
  by (simp add: use_def call_next_def Let_def)

lemma emit_all_append:
  "emit_all maxSize (xs @ ys) req =
     (case emit_all maxSize xs req of
        (req', Some exn) \<Rightarrow> (req', Some exn)
      | (req', None) \<Rightarrow> emit_all maxSize ys req')"
  by (induction xs arbitrary: req) (auto split: prod.splits option.splits)

lemma emit_listeners:
  "emit maxSize ev req = (req', r) \<Longrightarrow> listeners req' = listeners req"
  by (cases ev) (auto simp: on_data_def on_end_def on_error_def call_next_def Let_def
      split: if_splits)

lemma emit_all_listeners:
  "emit_all maxSize evs req = (req', r) \<Longrightarrow> listeners req' = listeners req"
proof (induction evs arbitrary: req)
  case Nil
  then show ?case by simp
next
  case (Cons ev evs)
  obtain req1 r1 where e: "emit maxSize ev req = (req1, r1)"
    by (cases "emit maxSize ev req")
  show ?case
  proof (cases r1)
    case None
    with Cons e show ?thesis
      using emit_listeners [OF e] by simp
  next
    case (Some exn)
    with Cons.prems e show ?thesis
      using emit_listeners [OF e] by simp
  qed
qed

lemma emit_all_data_within:
  assumes "''data'' \<in> set (listeners req)"
      and "receivedBytes req + sum_list chunks \<le> limit_of maxSize"
  shows "emit_all maxSize (map Data chunks) req =
           (req\<lparr>receivedBytes := receivedBytes req + sum_list chunks\<rparr>, None)"
  using assms
proof (induction chunks arbitrary: req)
  case Nil
  then show ?case by simp
next
  case (Cons c cs)
  let ?req1 = "req\<lparr>receivedBytes := receivedBytes req + c\<rparr>"
  have step: "emit maxSize (Data c) req = (?req1, None)"
    using Cons.prems by (simp add: on_data_def Let_def)
  have "emit_all maxSize (map Data cs) ?req1 =
      (?req1\<lparr>receivedBytes := receivedBytes ?req1 + sum_list cs\<rparr>, None)"
    using Cons.prems by (intro Cons.IH) simp_all
  then show ?case
    using step by (simp add: add.assoc)
qed

lemma emit_data_exceeds:
  assumes "''data'' \<in> set (listeners req)"
      and "limit_of maxSize < receivedBytes req + len"
  shows "emit maxSize (Data len) req =
           (req\<lparr>receivedBytes := receivedBytes req + len, paused := True\<rparr>,
            Some (PayloadTooLargeException
              (''Request body too large. Maximum size is '' @ formatBytes (limit_of maxSize))))"
  using assms by (simp add: on_data_def Let_def)

text \<open>
  C1, as amended. With \<open>limit\<close> the limit in force (\<open>maxSize\<close> when it is configured and
  not zero, the default of 10 * 1024 * 1024 when it is absent or zero): a body of exactly
  \<open>limit\<close> bytes followed by \<open>end\<close> throws nothing and calls \<open>next()\<close>; a single chunk
  of \<open>limit + 1\<close> bytes pauses the stream and throws \<open>PayloadTooLargeException\<close>, whose
  status is 413; a single chunk is rejected exactly when its length is strictly greater
  than \<open>limit\<close>.
\<close>

theorem limit_comparison_is_strict:
  "handle maxSize req [Data (limit_of maxSize), End] =
     ((use req)\<lparr>receivedBytes := limit_of maxSize,
                nextCalls := nextCalls (use req) @ [None]\<rparr>, None) \<and>
   handle maxSize req [Data (limit_of maxSize + 1)] =
     ((use req)\<lparr>receivedBytes := limit_of maxSize + 1, paused := True\<rparr>,
      Some (PayloadTooLargeException
        (''Request body too large. Maximum size is '' @ formatBytes (limit_of maxSize)))) \<and>
   getStatus (PayloadTooLargeException msg) = 413 \<and>
   (snd (handle maxSize req [Data len]) \<noteq> None) = (limit_of maxSize < len) \<and>
   (0 < L \<longrightarrow> limit_of (Some L) = L) \<and>
   limit_of (Some 0) = defaultLimit \<and> limit_of None = defaultLimit"
  by (simp add: handle_def on_data_def on_end_def call_next_def Let_def limit_of_def
      PayloadTooLargeException_def)

theorem limit_comparison_is_strict_witness:
  "(0::nat) < 5 \<and>
   handle (Some 5) (new_request ''POST'' ''/api/users'') [Data 5, End :: unit event] =
     (\<lparr>method = ''POST'', url = ''/api/users'', receivedBytes = 5, paused = False,
        listeners = [''data'', ''end'', ''error''], nextCalls = [None]\<rparr>, None) \<and>
   handle (Some 5) (new_request ''POST'' ''/api/users'') [Data 6 :: unit event] =
     (\<lparr>method = ''POST'', url = ''/api/users'', receivedBytes = 6, paused = True,
        listeners = [''data'', ''end'', ''error''], nextCalls = []\<rparr>,
      Some (PayloadTooLargeException ''Request body too large. Maximum size is 5 Bytes''))"
proof -
  let ?req = "new_request ''POST'' ''/api/users'' :: unit request"
  have l: "limit_of (Some 5) = 5"
    using limit_comparison_is_strict [of None ?req "[]" 0 5] by simp
  have u: "unit_index 5 = 0"
    by (rule unit_index_eqI) simp_all
  have f: "formatBytes 5 = ''5 Bytes''"
    by (simp add: formatBytes_def u round_div_def number_to_string_digit digit_char_def
        sizes_at_def sizes_def)
  show ?thesis
    using limit_comparison_is_strict [of "Some 5" ?req "[]" 0 5]
    by (simp add: l f use_def new_request_def)
qed

text \<open>
  C1 as stated fails for a configured limit of 0: the limit in force is then the default,
  so a single chunk of \<open>0 + 1\<close> bytes is not rejected and the request goes on to the next
  stage.
\<close>

theorem zero_limit_counterexample:
  "handle (Some 0) (new_request ''POST'' ''/api/users'') [Data (0 + 1), End :: unit event] =
     (\<lparr>method = ''POST'', url = ''/api/users'', receivedBytes = 1, paused = False,
        listeners = [''data'', ''end'', ''error''], nextCalls = [None]\<rparr>, None)"
  by (simp add: handle_def use_def new_request_def on_data_def on_end_def call_next_def
      limit_of_def defaultLimit_def Let_def)

text \<open>
  C2. When the cumulative byte count of the chunks first exceeds the limit at chunk \<open>k\<close>
  (counting from 0), the chunks before \<open>k\<close> are accumulated without any exception and
  without pausing; chunk \<open>k\<close> pauses the stream and throws \<open>PayloadTooLargeException\<close>
  with the message built from the formatted limit; whatever follows chunk \<open>k\<close> is not
  accumulated: the count stays at the sum of the first \<open>k + 1\<close> chunks.
\<close>

theorem rejects_at_first_excess:
  fixes rest :: "'e event list"
  assumes k: "k < length chunks"
      and before: "sum_list (take k chunks) \<le> limit_of maxSize"
      and at: "limit_of maxSize < sum_list (take (Suc k) chunks)"
  shows "handle maxSize req (map Data (take k chunks)) =
           ((use req)\<lparr>receivedBytes := sum_list (take k chunks)\<rparr>, None) \<and>
         handle maxSize req (map Data chunks @ rest) =
           ((use req)\<lparr>receivedBytes := sum_list (take (Suc k) chunks), paused := True\<rparr>,
            Some (PayloadTooLargeException
              (''Request body too large. Maximum size is '' @ formatBytes (limit_of maxSize))))"
proof -
  let ?req0 = "use req"
  let ?req1 = "?req0\<lparr>receivedBytes := sum_list (take k chunks)\<rparr>"
  have d: "''data'' \<in> set (listeners ?req0)" by simp
  have r0: "receivedBytes ?req0 = 0"
    by (simp add: use_def call_next_def Let_def)
  have pre: "emit_all maxSize (map Data (take k chunks)) ?req0 = (?req1, None)"
    using emit_all_data_within [OF d, of "take k chunks" maxSize] before r0 by simp
  have split: "chunks = take k chunks @ chunks ! k # drop (Suc k) chunks"
    using k by (simp add: id_take_nth_drop [symmetric])
  have sum: "sum_list (take (Suc k) chunks) = sum_list (take k chunks) + chunks ! k"
    using k by (simp add: take_Suc_conv_app_nth)
  have "emit maxSize (Data (chunks ! k)) ?req1 =
      (?req1\<lparr>receivedBytes := receivedBytes ?req1 + chunks ! k, paused := True\<rparr>,
       Some (PayloadTooLargeException
         (''Request body too large. Maximum size is '' @ formatBytes (limit_of maxSize))))"
    using at sum by (intro emit_data_exceeds) simp_all
  then have kth: "emit maxSize (Data (chunks ! k)) ?req1 =
      (?req0\<lparr>receivedBytes := sum_list (take (Suc k) chunks), paused := True\<rparr>,
       Some (PayloadTooLargeException
         (''Request body too large. Maximum size is '' @ formatBytes (limit_of maxSize))))"
    using sum by simp
  have "map Data chunks @ rest =
      map Data (take k chunks) @ Data (chunks ! k) # (map Data (drop (Suc k) chunks) @ rest)"
    by (subst split) simp
  then have "emit_all maxSize (map Data chunks @ rest) ?req0 =
      (?req0\<lparr>receivedBytes := sum_list (take (Suc k) chunks), paused := True\<rparr>,
       Some (PayloadTooLargeException
         (''Request body too large. Maximum size is '' @ formatBytes (limit_of maxSize))))"
    using pre kth by (simp add: emit_all_append)
  with pre show ?thesis
    by (simp add: handle_def)
qed

theorem rejects_at_first_excess_witness:
  "(1::nat) < length [6291456, 6291456, 100 :: nat] \<and>
   sum_list (take 1 [6291456, 6291456, 100 :: nat]) \<le> limit_of None \<and>
   limit_of None < sum_list (take (Suc 1) [6291456, 6291456, 100 :: nat]) \<and>
   handle None (new_request ''POST'' ''/api/users'')
       [Data 6291456, Data 6291456, Data 100, End :: unit event] =
     (\<lparr>method = ''POST'', url = ''/api/users'', receivedBytes = 12582912, paused = True,
        listeners = [''data'', ''end'', ''error''], nextCalls = []\<rparr>,
      Some (PayloadTooLargeException ''Request body too large. Maximum size is 10 MB''))"
proof -
  have l: "limit_of None = 10485760"
    by (simp add: limit_of_def defaultLimit_def)
  have f: "formatBytes 10485760 = ''10 MB''"
    using formatBytes_10MB by simp
  show ?thesis
    using rejects_at_first_excess [of 1 "[6291456, 6291456, 100]" None
        "new_request ''POST'' ''/api/users''" "[End :: unit event]"]
    by (simp add: l f use_def new_request_def)
qed

text \<open>
  C4 fails on the code: \<open>use\<close> registers the three listeners before it tests the
  request's method. A GET request whose stream delivers a chunk of 11 * 1024 * 1024 bytes
  under the default limit has its bytes counted, is paused, and throws
  \<open>PayloadTooLargeException\<close>.
\<close>

theorem get_request_body_is_counted:
  "handle None (new_request ''GET'' ''/api'') [Data 11534336 :: unit event] =
     (\<lparr>method = ''GET'', url = ''/api'', receivedBytes = 11534336, paused = True,
        listeners = [''data'', ''end'', ''error''], nextCalls = [None]\<rparr>,
      Some (PayloadTooLargeException ''Request body too large. Maximum size is 10 MB''))"
  by (simp add: handle_def use_def new_request_def on_data_def call_next_def
      limit_of_def formatBytes_default Let_def) (simp add: defaultLimit_def)

text \<open>
  C7. After any run of events that has thrown nothing, an \<open>error\<close> event calls
  \<open>next(error)\<close> with the very error object, throws nothing and changes nothing else;
  the \<open>error\<close> listener does so in every state, whatever the byte count.
\<close>

theorem transport_error_forwarded_verbatim:
  assumes "handle maxSize req0 evs = (req, None)"
  shows "handle maxSize req0 (evs @ [Error e]) =
           (req\<lparr>nextCalls := nextCalls req @ [Some e]\<rparr>, None) \<and>
         on_error e req' = (req'\<lparr>nextCalls := nextCalls req' @ [Some e]\<rparr>, None)"
proof -
  have "listeners req = listeners (use req0)"
    using assms emit_all_listeners [of maxSize evs "use req0" req None]
    by (simp add: handle_def)
  then have "''error'' \<in> set (listeners req)"
    by simp
  then have "emit maxSize (Error e) req = (req\<lparr>nextCalls := nextCalls req @ [Some e]\<rparr>, None)"
    by (simp add: on_error_def call_next_def)
  then show ?thesis
    using assms by (simp add: handle_def emit_all_append on_error_def call_next_def)
qed

theorem transport_error_forwarded_verbatim_witness:
  "handle (Some 8) (new_request ''POST'' ''/api/users'') [Data 5 :: string event] =
     (\<lparr>method = ''POST'', url = ''/api/users'', receivedBytes = 5, paused = False,
       listeners = [''data'', ''end'', ''error''], nextCalls = []\<rparr>, None) \<and>
   handle (Some 8) (new_request ''POST'' ''/api/users'') [Data 5, Error ''ECONNRESET''] =
     (\<lparr>method = ''POST'', url = ''/api/users'', receivedBytes = 5, paused = False,
       listeners = [''data'', ''end'', ''error''], nextCalls = [Some ''ECONNRESET'']\<rparr>, None)"
proof -
  have h: "handle (Some 8) (new_request ''POST'' ''/api/users'') [Data 5] =
     (\<lparr>method = ''POST'', url = ''/api/users'', receivedBytes = 5, paused = False,
       listeners = [''data'', ''end'', ''error''],
       nextCalls = ([] :: string option list)\<rparr>, None)"
    by (simp add: handle_def use_def new_request_def on_data_def limit_of_def Let_def)
  show ?thesis
    using h transport_error_forwarded_verbatim
      [OF h, where e = "''ECONNRESET''" and req' = "new_request [] []"]
    by simp
qed

text \<open>
  C9. For a request whose method is GET, HEAD or DELETE, \<open>use\<close> registers the \<open>data\<close>,
  \<open>end\<close> and \<open>error\<close> listeners and calls \<open>next()\<close> at once; an \<open>end\<close> event emitted
  afterwards calls \<open>next()\<close> a second time.
\<close>

theorem fast_path_calls_next_twice:
  assumes "method req = ''GET'' \<or> method req = ''HEAD'' \<or> method req = ''DELETE''"
  shows "use req =
           req\<lparr>receivedBytes := 0,
               listeners := listeners req @ [''data'', ''end'', ''error''],
               nextCalls := nextCalls req @ [None]\<rparr> \<and>
         emit maxSize End (use req) =
           ((use req)\<lparr>nextCalls := nextCalls req @ [None, None]\<rparr>, None)"
  using assms by (auto simp: use_def call_next_def on_end_def Let_def)

theorem fast_path_calls_next_twice_witness:
  "''GET'' = method (new_request ''GET'' ''/api'' :: unit request) \<and>
   use (new_request ''GET'' ''/api'' :: unit request) =
     \<lparr>method = ''GET'', url = ''/api'', receivedBytes = 0, paused = False,
      listeners = [''data'', ''end'', ''error''], nextCalls = [None]\<rparr> \<and>
   emit None End (use (new_request ''GET'' ''/api'' :: unit request)) =
     (\<lparr>method = ''GET'', url = ''/api'', receivedBytes = 0, paused = False,
       listeners = [''data'', ''end'', ''error''], nextCalls = [None, None]\<rparr>, None)"
  using fast_path_calls_next_twice [of "new_request ''GET'' ''/api'' :: unit request" None]
  by (simp add: new_request_def use_def call_next_def on_end_def)

section \<open>Properties of the error translation\<close>

text \<open>
  C5. A guard rejection sends the exception to the filter and the business handler is
  not invoked. Whatever is thrown, the filter answers with a JSON object whose first five
  properties are \<open>statusCode\<close>, \<open>timestamp\<close>, \<open>path\<close>, \<open>method\<close> and \<open>message\<close>. For
  an \<open>HttpException\<close> the status sent and the \<open>statusCode\<close> are the exception's own
  status (413 for \<open>PayloadTooLargeException\<close>), and the message comes from the
  exception's response. For anything else the status is 500 and the message is the fixed
  text \<open>Internal server error\<close>. The response is the same whatever the stack of the
  exception is: the stack goes to the logger only.
\<close>

theorem all_exceptions_filter:
  "(run_guards guards request = Some exn \<longrightarrow>
      pipeline guards handler now request = (fst (catch exn now request), 0)) \<and>
   map fst (take 5 (json_sent (fst (catch exception now request)))) =
     [''statusCode'', ''timestamp'', ''path'', ''method'', ''message''] \<and>
   fst (catch (ThrownHttp h stk) now request) =
     \<lparr>status_sent = getStatus h,
      json_sent =
        [(''statusCode'', JNum (int (getStatus h))), (''timestamp'', JStr now),
         (''path'', JStr (url request)), (''method'', JStr (method request)),
         (''message'', JStr (extract_message (getResponse h)))]
        @ error_spread (getResponse h)\<rparr> \<and>
   fst (catch (ThrownHttp (PayloadTooLargeException reason) stk) now request) =
     \<lparr>status_sent = 413,
      json_sent =
        [(''statusCode'', JNum 413), (''timestamp'', JStr now),
         (''path'', JStr (url request)), (''method'', JStr (method request)),
         (''message'', JStr reason), (''error'', JStr ''Payload Too Large'')]\<rparr> \<and>
   fst (catch (ThrownError msg stk) now request) =
     \<lparr>status_sent = 500,
      json_sent =
        [(''statusCode'', JNum 500), (''timestamp'', JStr now),
         (''path'', JStr (url request)), (''method'', JStr (method request)),
         (''message'', JStr ''Internal server error'')]\<rparr> \<and>
   fst (catch (ThrownValue v) now request) =
     \<lparr>status_sent = 500,
      json_sent =
        [(''statusCode'', JNum 500), (''timestamp'', JStr now),
         (''path'', JStr (url request)), (''method'', JStr (method request)),
         (''message'', JStr ''Internal server error'')]\<rparr> \<and>
   snd (catch (ThrownError msg stk) now request) =
     (method request @ '' '' @ url request, stk)"
  by (simp add: pipeline_def catch_def exception_status_def exception_response_def
      extract_message_def error_spread_def logged_stack_def INTERNAL_SERVER_ERROR_def
      PayloadTooLargeException_def Let_def)

theorem all_exceptions_filter_witness:
  "run_guards
     [\<lambda>r. None,
      \<lambda>r. Some (ThrownHttp (HttpException 429 (JStr ''ThrottlerException: Too Many Requests''))
                 ''Error at ThrottlerGuard'')]
     (new_request ''GET'' ''/api'' :: unit request) =
     Some (ThrownHttp (HttpException 429 (JStr ''ThrottlerException: Too Many Requests''))
            ''Error at ThrottlerGuard'') \<and>
   pipeline
     [\<lambda>r. None,
      \<lambda>r. Some (ThrownHttp (HttpException 429 (JStr ''ThrottlerException: Too Many Requests''))
                 ''Error at ThrottlerGuard'')]
     (\<lambda>r. Inr \<lparr>status_sent = 200, json_sent = []\<rparr>)
     ''2026-01-01T00:00:00.000Z'' (new_request ''GET'' ''/api'' :: unit request) =
     (\<lparr>status_sent = 429,
       json_sent =
         [(''statusCode'', JNum 429), (''timestamp'', JStr ''2026-01-01T00:00:00.000Z''),
          (''path'', JStr ''/api''), (''method'', JStr ''GET''),
          (''message'', JStr ''ThrottlerException: Too Many Requests'')]\<rparr>, 0)"
proof -
  let ?exn = "ThrownHttp (HttpException 429 (JStr ''ThrottlerException: Too Many Requests''))
      ''Error at ThrottlerGuard''"
  let ?guards = "[\<lambda>r. None, \<lambda>r. Some ?exn] :: (unit request \<Rightarrow> thrown option) list"
  let ?req = "new_request ''GET'' ''/api'' :: unit request"
  have g: "run_guards ?guards ?req = Some ?exn"
    by simp
  have c: "fst (catch ?exn ''2026-01-01T00:00:00.000Z'' ?req) =
      \<lparr>status_sent = 429,
       json_sent =
         [(''statusCode'', JNum 429), (''timestamp'', JStr ''2026-01-01T00:00:00.000Z''),
          (''path'', JStr ''/api''), (''method'', JStr ''GET''),
          (''message'', JStr ''ThrottlerException: Too Many Requests'')]\<rparr>"
    by (simp add: catch_def exception_status_def exception_response_def
        extract_message_def error_spread_def new_request_def Let_def)
  have "pipeline ?guards (\<lambda>r. Inr \<lparr>status_sent = 200, json_sent = []\<rparr>)
      ''2026-01-01T00:00:00.000Z'' ?req = (fst (catch ?exn ''2026-01-01T00:00:00.000Z'' ?req), 0)"
    using all_exceptions_filter
      [of ?guards ?req ?exn "\<lambda>r. Inr \<lparr>status_sent = 200, json_sent = []\<rparr>"
          "''2026-01-01T00:00:00.000Z''"] g
    by blast
  then show ?thesis
    using g c by simp
qed

section \<open>Properties of the rate limiter\<close>

lemma ceil_div_1000_ceiling: "ceil_div_1000 x = \<lceil>real_of_int x / 1000\<rceil>"
proof -
  have "\<lfloor>real_of_int (- x) / real_of_int 1000\<rfloor> = (- x) div 1000"
    by (rule floor_divide_of_int_eq)
  then show ?thesis
    by (simp add: ceil_div_1000_def ceiling_def)
qed

lemma ceil_div_1000_pos: "0 < x \<Longrightarrow> 0 < ceil_div_1000 x"
  by (simp add: ceil_div_1000_ceiling)

lemma ceil_div_1000_mono: "x \<le> y \<Longrightarrow> ceil_div_1000 x \<le> ceil_div_1000 y"
  by (simp add: ceil_div_1000_ceiling ceiling_mono divide_right_mono)

lemma throttle_in_window:
  assumes "counters a = Some \<lparr>count = c, windowStart = w\<rparr>" and "now < w + T"
  shows "throttle T N a now counters =
           (if c < N then Admit else RejectTooManyRequests (ceil_div_1000 (w + T - now)),
            counters(a \<mapsto> \<lparr>count = Suc c, windowStart = w\<rparr>))"
  using assms by (simp add: throttle_def Let_def)

lemma throttle_fresh:
  assumes "counters a = None" and "0 < T"
  shows "throttle T N a now counters =
           (if 0 < N then Admit else RejectTooManyRequests (ceil_div_1000 (now + T - now)),
            counters(a \<mapsto> \<lparr>count = Suc 0, windowStart = now\<rparr>))"
  using assms by (simp add: throttle_def Let_def)

lemma throttle_expired:
  assumes "counters a = Some c" and "windowStart c + T \<le> now"
  shows "throttle T N a now counters =
           (if 0 < N then Admit else RejectTooManyRequests (ceil_div_1000 (now + T - now)),
            counters(a \<mapsto> \<lparr>count = Suc 0, windowStart = now\<rparr>))"
  using assms by (simp add: throttle_def Let_def)

lemma throttle_all_in_window:
  assumes "counters a = Some \<lparr>count = c, windowStart = w\<rparr>"
      and "\<forall>t \<in> set ts. t < w + T"
  shows "throttle_all T N (map (Pair a) ts) counters =
           (map (\<lambda>(i, t). (a, if i < N then Admit
                                else RejectTooManyRequests (ceil_div_1000 (w + T - t))))
              (enumerate c ts),
            counters(a \<mapsto> \<lparr>count = c + length ts, windowStart = w\<rparr>))"
  using assms
proof (induction ts arbitrary: counters c)
  case Nil
  then show ?case by (simp add: fun_upd_idem)
next
  case (Cons t ts)
  let ?counters1 = "counters(a \<mapsto> \<lparr>count = Suc c, windowStart = w\<rparr>)"
  have step: "throttle T N a t counters =
      (if c < N then Admit else RejectTooManyRequests (ceil_div_1000 (w + T - t)), ?counters1)"
    using Cons.prems by (intro throttle_in_window) simp_all
  have "throttle_all T N (map (Pair a) ts) ?counters1 =
      (map (\<lambda>(i, t). (a, if i < N then Admit
                           else RejectTooManyRequests (ceil_div_1000 (w + T - t))))
         (enumerate (Suc c) ts),
       ?counters1(a \<mapsto> \<lparr>count = Suc c + length ts, windowStart = w\<rparr>))"
    using Cons.prems by (intro Cons.IH) simp_all
  then show ?case
    using step by auto
qed

text \<open>
  C3, as amended. For an identity without a counter, a window length \<open>T > 0\<close> and a
  limit \<open>N\<close>, take a first request at \<open>t0\<close> and later requests within the window
  \<open>[t0, t0 + T)\<close>. Exactly the requests numbered below \<open>N\<close> (the first \<open>N\<close>) are
  admitted; every later one in the window is rejected with
  \<open>retryAfterSeconds = ceil((t0 + T - now) / 1000)\<close>, which is positive and at most
  \<open>ceil(T / 1000)\<close>, hence at most \<open>T / 1000\<close> when \<open>T\<close> is a multiple of 1000. When
  \<open>N \<ge> 1\<close>, a request at or after \<open>t0 + T\<close> is admitted again, with the counter reset
  to a new window.
\<close>

theorem fixed_window_admission:
  fixes a :: 'id
  assumes T: "0 < T"
      and fresh: "counters a = None"
      and window: "\<forall>t \<in> set later. t0 \<le> t \<and> t < t0 + T"
  shows "map snd (fst (throttle_all T N (map (Pair a) (t0 # later)) counters)) =
           map (\<lambda>(i, t). if i < N then Admit
                          else RejectTooManyRequests (ceil_div_1000 (t0 + T - t)))
             (enumerate 0 (t0 # later)) \<and>
         snd (throttle_all T N (map (Pair a) (t0 # later)) counters) a =
           Some \<lparr>count = Suc (length later), windowStart = t0\<rparr> \<and>
         (\<forall>t \<in> set (t0 # later).
            ceil_div_1000 (t0 + T - t) = \<lceil>real_of_int (t0 + T - t) / 1000\<rceil> \<and>
            0 < ceil_div_1000 (t0 + T - t) \<and>
            ceil_div_1000 (t0 + T - t) \<le> ceil_div_1000 T \<and>
            (1000 dvd T \<longrightarrow> real_of_int (ceil_div_1000 (t0 + T - t)) \<le> real_of_int T / 1000)) \<and>
         (0 < N \<and> t0 + T \<le> now \<longrightarrow>
            throttle T N a now (snd (throttle_all T N (map (Pair a) (t0 # later)) counters)) =
              (Admit,
               (snd (throttle_all T N (map (Pair a) (t0 # later)) counters))
                 (a \<mapsto> \<lparr>count = 1, windowStart = now\<rparr>)))"
proof -
  let ?counters1 = "counters(a \<mapsto> \<lparr>count = Suc 0, windowStart = t0\<rparr>)"
  let ?d = "\<lambda>(i, t). if i < N then Admit
                      else RejectTooManyRequests (ceil_div_1000 (t0 + T - t))"
  have first: "throttle T N a t0 counters = (?d (0, t0), ?counters1)"
    using throttle_fresh [of counters a T N t0] fresh T by simp
  have rest: "throttle_all T N (map (Pair a) later) ?counters1 =
      (map (\<lambda>(i, t). (a, ?d (i, t))) (enumerate (Suc 0) later),
       ?counters1(a \<mapsto> \<lparr>count = Suc 0 + length later, windowStart = t0\<rparr>))"
    using throttle_all_in_window [of ?counters1 a "Suc 0" t0 later T N] window by simp
  have run: "throttle_all T N (map (Pair a) (t0 # later)) counters =
      (map (\<lambda>(i, t). (a, ?d (i, t))) (enumerate 0 (t0 # later)),
       counters(a \<mapsto> \<lparr>count = Suc (length later), windowStart = t0\<rparr>))"
    using first rest by simp
  have decisions: "map snd (fst (throttle_all T N (map (Pair a) (t0 # later)) counters)) =
      map ?d (enumerate 0 (t0 # later))"
    unfolding run by (simp add: case_prod_beta comp_def del: enumerate_simps)
  have bounds: "ceil_div_1000 (t0 + T - t) = \<lceil>real_of_int (t0 + T - t) / 1000\<rceil> \<and>
      0 < ceil_div_1000 (t0 + T - t) \<and>
      ceil_div_1000 (t0 + T - t) \<le> ceil_div_1000 T \<and>
      (1000 dvd T \<longrightarrow> real_of_int (ceil_div_1000 (t0 + T - t)) \<le> real_of_int T / 1000)"
    if "t \<in> set (t0 # later)" for t
  proof -
    have t: "t0 \<le> t \<and> t < t0 + T"
      using that window T by auto
    have le: "ceil_div_1000 (t0 + T - t) \<le> ceil_div_1000 T"
      using t by (intro ceil_div_1000_mono) simp
    have "real_of_int (ceil_div_1000 (t0 + T - t)) \<le> real_of_int T / 1000" if d: "1000 dvd T"
    proof -
      obtain q where q: "T = 1000 * q"
        using d by (auto elim: dvdE)
      then have "ceil_div_1000 T = q"
        by (simp add: ceil_div_1000_def)
      then have "real_of_int (ceil_div_1000 (t0 + T - t)) \<le> real_of_int q"
        using le by simp
      then show ?thesis using q by simp
    qed
    moreover have "ceil_div_1000 (t0 + T - t) = \<lceil>real_of_int (t0 + T - t) / 1000\<rceil>"
      by (rule ceil_div_1000_ceiling)
    moreover have "0 < ceil_div_1000 (t0 + T - t)"
      using t by (intro ceil_div_1000_pos) simp
    ultimately show ?thesis
      using le by blast
  qed
  have reset: "throttle T N a now (snd (throttle_all T N (map (Pair a) (t0 # later)) counters)) =
      (Admit,
       (snd (throttle_all T N (map (Pair a) (t0 # later)) counters))
         (a \<mapsto> \<lparr>count = 1, windowStart = now\<rparr>))"
    if "0 < N" and "t0 + T \<le> now"
    unfolding run using that
    by (simp add: throttle_expired [of _ a "\<lparr>count = Suc (length later), windowStart = t0\<rparr>"])
  have final: "snd (throttle_all T N (map (Pair a) (t0 # later)) counters) a =
      Some \<lparr>count = Suc (length later), windowStart = t0\<rparr>"
    unfolding run by simp
  show ?thesis
    using decisions final bounds reset by (intro conjI ballI impI) blast+
qed

theorem fixed_window_admission_witness:
  "(0::int) < 60000 \<and> (Map.empty :: string \<rightharpoonup> window_counter) ''10.0.0.1'' = None \<and>
   (0::int) \<le> 100 \<and> (100::int) < 0 + 60000 \<and>
   (0::int) \<le> 59999 \<and> (59999::int) < 0 + 60000 \<and>
   map snd (fst (throttle_all 60000 2
       [(''10.0.0.1'', 0), (''10.0.0.1'', 100), (''10.0.0.1'', 59999)] Map.empty)) =
     [Admit, Admit, RejectTooManyRequests 1] \<and>
   fst (throttle 60000 2 ''10.0.0.1'' 60000
     (snd (throttle_all 60000 2
        [(''10.0.0.1'', 0), (''10.0.0.1'', 100), (''10.0.0.1'', 59999)] Map.empty))) = Admit"
proof -
  have w: "\<forall>t \<in> set [100, 59999 :: int]. 0 \<le> t \<and> t < 0 + 60000"
    by simp
  have e: "(Map.empty :: string \<rightharpoonup> window_counter) ''10.0.0.1'' = None"
    by simp
  have T: "(0::int) < 60000"
    by simp
  note adm = fixed_window_admission
    [where T = 60000 and counters = "Map.empty :: string \<rightharpoonup> window_counter"
       and a = "''10.0.0.1''" and ?t0.0 = 0 and later = "[100, 59999]" and N = 2
       and now = 60000, OF T e w]
  have "map snd (fst (throttle_all 60000 2
       [(''10.0.0.1'', 0), (''10.0.0.1'', 100), (''10.0.0.1'', 59999)] Map.empty)) =
     [Admit, Admit, RejectTooManyRequests 1]"
    using adm by (simp add: ceil_div_1000_def)
  moreover have "fst (throttle 60000 2 ''10.0.0.1'' 60000
     (snd (throttle_all 60000 2
        [(''10.0.0.1'', 0), (''10.0.0.1'', 100), (''10.0.0.1'', 59999)] Map.empty))) = Admit"
    using adm by simp
  ultimately show ?thesis
    by simp
qed

text \<open>
  C3 as stated fails for a window length that is no multiple of 1000: with \<open>ttl = 1500\<close>
  and \<open>limit = 1\<close>, the second of two requests at time 0 is rejected with
  \<open>retryAfterSeconds = ceil(1500 / 1000) = 2\<close>, which is above \<open>ttl / 1000 = 1.5\<close>.
\<close>

theorem retry_after_bound_counterexample:
  "map snd (fst (throttle_all 1500 1 [(''10.0.0.1'', 0), (''10.0.0.1'', 0)] Map.empty)) =
     [Admit, RejectTooManyRequests 2] \<and>
   \<not> (real_of_int 2 \<le> real_of_int 1500 / 1000)"
  by (simp add: throttle_def ceil_div_1000_def Let_def)

lemma throttle_other:
  "b \<noteq> a \<Longrightarrow> snd (throttle T N b now counters) a = counters a"
  by (simp add: throttle_def Let_def)

lemma throttle_local:
  assumes "counters a = counters' a"
  shows "fst (throttle T N a now counters) = fst (throttle T N a now counters') \<and>
         snd (throttle T N a now counters) a = snd (throttle T N a now counters') a"
  using assms by (simp add: throttle_def Let_def)

lemma throttle_all_agree:
  assumes "a \<noteq> b" and "counters a = counters' a"
  shows "decisions_for a (fst (throttle_all T N reqs counters)) =
           decisions_for a (fst (throttle_all T N (filter (\<lambda>r. fst r \<noteq> b) reqs) counters')) \<and>
         snd (throttle_all T N reqs counters) a =
           snd (throttle_all T N (filter (\<lambda>r. fst r \<noteq> b) reqs) counters') a"
  using assms(2)
proof (induction reqs arbitrary: counters counters')
  case Nil
  then show ?case by (simp add: decisions_for_def)
next
  case (Cons r reqs)
  obtain x now where r: "r = (x, now)"
    by (cases r)
  obtain d counters1 where s: "throttle T N x now counters = (d, counters1)"
    by (cases "throttle T N x now counters")
  obtain ds counters2 where t: "throttle_all T N reqs counters1 = (ds, counters2)"
    by (cases "throttle_all T N reqs counters1")
  show ?case
  proof (cases "x = b")
    case True
    then have "counters1 a = counters' a"
      using throttle_other [of b a T N now counters] s assms(1) Cons.prems by simp
    then have "decisions_for a (fst (throttle_all T N reqs counters1)) =
        decisions_for a (fst (throttle_all T N (filter (\<lambda>r. fst r \<noteq> b) reqs) counters')) \<and>
      snd (throttle_all T N reqs counters1) a =
        snd (throttle_all T N (filter (\<lambda>r. fst r \<noteq> b) reqs) counters') a"
      by (rule Cons.IH)
    then show ?thesis
      using True r s t assms(1) by (simp add: decisions_for_def)
  next
    case False
    obtain d' counters1' where s': "throttle T N x now counters' = (d', counters1')"
      by (cases "throttle T N x now counters'")
    obtain ds' counters2' where
      t': "throttle_all T N (filter (\<lambda>r. fst r \<noteq> b) reqs) counters1' = (ds', counters2')"
      by (cases "throttle_all T N (filter (\<lambda>r. fst r \<noteq> b) reqs) counters1'")
    have agree: "counters1 a = counters1' a \<and> (x = a \<longrightarrow> d = d')"
    proof (cases "x = a")
      case True
      then show ?thesis
        using throttle_local [of counters a counters' T N now] Cons.prems s s' by simp
    next
      case False
      then show ?thesis
        using throttle_other [of x a T N now counters]
          throttle_other [of x a T N now counters'] Cons.prems s s' by simp
    qed
    then have "decisions_for a (fst (throttle_all T N reqs counters1)) =
        decisions_for a (fst (throttle_all T N (filter (\<lambda>r. fst r \<noteq> b) reqs) counters1')) \<and>
      snd (throttle_all T N reqs counters1) a =
        snd (throttle_all T N (filter (\<lambda>r. fst r \<noteq> b) reqs) counters1') a"
      by (intro Cons.IH) simp
    then show ?thesis
      using False r s t s' t' agree by (simp add: decisions_for_def)
  qed
qed

text \<open>
  C8. For two distinct identities \<open>a\<close> and \<open>b\<close> and any sequence of requests, the
  decisions taken for \<open>a\<close> and the final counter of \<open>a\<close> (its count and its window
  start) are the same in the run with all requests and in the run from which the requests
  of \<open>b\<close> have been removed.
\<close>

theorem identities_do_not_interfere:
  assumes "a \<noteq> b"
  shows "decisions_for a (fst (throttle_all T N reqs counters)) =
           decisions_for a (fst (throttle_all T N (filter (\<lambda>r. fst r \<noteq> b) reqs) counters)) \<and>
         snd (throttle_all T N reqs counters) a =
           snd (throttle_all T N (filter (\<lambda>r. fst r \<noteq> b) reqs) counters) a"
  using assms by (intro throttle_all_agree) simp_all

theorem identities_do_not_interfere_witness:
  "''10.0.0.1'' \<noteq> ''10.0.0.2'' \<and>
   decisions_for ''10.0.0.1'' (fst (throttle_all 60000 1
       [(''10.0.0.2'', 0), (''10.0.0.1'', 5), (''10.0.0.2'', 7), (''10.0.0.1'', 9)]
       Map.empty)) =
     [Admit, RejectTooManyRequests 60] \<and>
   decisions_for ''10.0.0.1'' (fst (throttle_all 60000 1
       [(''10.0.0.1'', 5), (''10.0.0.1'', 9)] Map.empty)) =
     [Admit, RejectTooManyRequests 60]"
proof -
  have ne: "''10.0.0.1'' \<noteq> ''10.0.0.2''"
    by simp
  have alone: "decisions_for ''10.0.0.1'' (fst (throttle_all 60000 1
       [(''10.0.0.1'', 5), (''10.0.0.1'', 9)] Map.empty)) =
     [Admit, RejectTooManyRequests 60]"
    by (simp add: throttle_def ceil_div_1000_def decisions_for_def Let_def)
  have "decisions_for ''10.0.0.1'' (fst (throttle_all 60000 1
       [(''10.0.0.2'', 0), (''10.0.0.1'', 5), (''10.0.0.2'', 7), (''10.0.0.1'', 9)]
       Map.empty)) =
     decisions_for ''10.0.0.1'' (fst (throttle_all 60000 1
       (filter (\<lambda>r. fst r \<noteq> ''10.0.0.2'')
          [(''10.0.0.2'', 0), (''10.0.0.1'', 5), (''10.0.0.2'', 7), (''10.0.0.1'', 9)])
       Map.empty))"
    using identities_do_not_interfere [OF ne] by blast
  then show ?thesis
    using alone ne by simp
qed

end
